theory Spec2Isabelle
  imports Main "HOL-Library.Word"
begin

section \<open>The C++ side of the cxx-async bridge (rust/cxx\_async.h)\<close>

text \<open>
  The header is embedded as state transformers over an explicit store. Objects that the
  code reaches through pointers (\<open>SuspendedCoroutine*\<close>, the \<open>shared_ptr\<close>/\<open>weak_ptr\<close> to a
  \<open>RustFutureReceiver\<close>, the \<open>this\<close> of a \<open>RustStreamAwaiter\<close> captured by its wake closure)
  live in maps from addresses to records. The three functions of the \<open>Vtable\<close> are
  implemented in Rust; they are parameters of the model, acting on an opaque producer-side
  state. Every call that leaves the header (a vtable call, the \<open>resume\<close>/\<open>destroy\<close> of a
  continuation, the \<open>delete this\<close> of a coroutine) is appended to a trace.
\<close>

subsection \<open>Machine types and status codes\<close>

type_synonym u32 = "32 word"
type_synonym uintptr_t = "64 word"
type_synonym ptr = nat

text \<open>
  \<open>uintptr_t\<close>, the type of the reference counter, is taken to be 64 bits wide; its
  arithmetic wraps around. Addresses are natural numbers.
\<close>

text \<open>
  The three \<open>enum class\<close>es cross the FFI boundary as \<open>uint32_t\<close> and are converted with
  \<open>static_cast\<close> in both directions, also from one enumeration to the other
  (\<open>static_cast<FutureWakeStatus>(m_status)\<close>). They are therefore kept as their underlying
  values, with the enumerators as named constants; each \<open>static_cast\<close> is the identity.
\<close>

type_synonym FuturePollStatus = u32

definition FuturePollStatus_Pending :: FuturePollStatus where
  "FuturePollStatus_Pending = 0"
definition FuturePollStatus_Complete :: FuturePollStatus where
  "FuturePollStatus_Complete = 1"
definition FuturePollStatus_Error :: FuturePollStatus where
  "FuturePollStatus_Error = 2"
definition FuturePollStatus_Running :: FuturePollStatus where
  "FuturePollStatus_Running = 3"

type_synonym FutureWakeStatus = u32

definition FutureWakeStatus_Pending :: FutureWakeStatus where
  "FutureWakeStatus_Pending = 0"
definition FutureWakeStatus_Complete :: FutureWakeStatus where
  "FutureWakeStatus_Complete = 1"
definition FutureWakeStatus_Error :: FutureWakeStatus where
  "FutureWakeStatus_Error = 2"
definition FutureWakeStatus_Dead :: FutureWakeStatus where
  "FutureWakeStatus_Dead = 3"

type_synonym RustSendResult = u32

definition RustSendResult_Wait :: RustSendResult where
  "RustSendResult_Wait = 0"
definition RustSendResult_Sent :: RustSendResult where
  "RustSendResult_Sent = 1"
definition RustSendResult_Finished :: RustSendResult where
  "RustSendResult_Finished = 2"

definition wake_status_is_done :: "FutureWakeStatus \<Rightarrow> bool" where
  "wake_status_is_done status \<longleftrightarrow>
     status = FutureWakeStatus_Complete \<or> status = FutureWakeStatus_Error"

subsection \<open>Failures\<close>

text \<open>
  What can be thrown: the header's own \<open>Error\<close> (a \<open>std::exception\<close> holding a C string),
  any other class derived from \<open>std::exception\<close> with the text its \<open>what()\<close> returns, or an
  object of a type that is not derived from \<open>std::exception\<close> (as in \<open>throw 42\<close>).
\<close>

datatype exception = Error string | std_exception string | non_std_exception

text \<open>\<open>catch (const std::exception& e)\<close> followed by \<open>e.what()\<close>.\<close>

fun what :: "exception \<Rightarrow> string option" where
  "what (Error m_message) = Some m_message"
| "what (std_exception msg) = Some msg"
| "what non_std_exception = None"

text \<open>
  \<open>rust::String::c_str()\<close> hands out a pointer to the bytes of the string followed by a
  terminator. \<open>Error::copy_from\<close> copies \<open>strlen(message) + 1\<close> bytes from that pointer, so
  the C string it keeps is the text before the first NUL byte.
\<close>

definition c_str :: "string \<Rightarrow> string" where
  "c_str s = takeWhile (\<lambda>c. c \<noteq> CHR 0x00) s"

datatype failure =
    Thrown exception
  | AssertionFailed
  | Terminated
  | UndefinedBehaviour

text \<open>
  A piece of code is a function from the store to an outcome and the store it leaves. The
  store is kept on a failure as well: what happened before the failure has happened.
\<close>

type_synonym ('a, 'w) prog = "'w \<Rightarrow> (failure + 'a) \<times> 'w"

definition prog_return :: "'a \<Rightarrow> ('a, 'w) prog" where
  "prog_return a w = (Inr a, w)"

definition prog_fail :: "failure \<Rightarrow> ('a, 'w) prog" where
  "prog_fail e w = (Inl e, w)"

definition prog_bind :: "('a, 'w) prog \<Rightarrow> ('a \<Rightarrow> ('b, 'w) prog) \<Rightarrow> ('b, 'w) prog" where
  "prog_bind m f w = (case m w of (Inl e, w') \<Rightarrow> (Inl e, w') | (Inr a, w') \<Rightarrow> f a w')"

text \<open>An exception that leaves a \<open>noexcept\<close> function calls \<open>std::terminate\<close>.\<close>

definition noexcept :: "('a, 'w) prog \<Rightarrow> ('a, 'w) prog" where
  "noexcept m w =
     (case m w of (Inl (Thrown e), w') \<Rightarrow> (Inl Terminated, w') | r \<Rightarrow> r)"

text \<open>
  Modelled from the spec: \<open>cxxasync_assert\<close> is declared in the header and defined
  elsewhere in the repository. The spec calls a failed \<open>CXXASYNC_ASSERT\<close> a fatal assertion
  that terminates the process; a true condition has no effect.
\<close>

definition cxxasync_assert :: "bool \<Rightarrow> (unit, 'w) prog" where
  "cxxasync_assert cond = (if cond then prog_return () else prog_fail AssertionFailed)"

subsection \<open>Data\<close>

text \<open>
  The \<open>RustFutureResult\<close> union: nothing constructed in it yet, \<open>m_result\<close> active, or
  \<open>m_exception\<close> active.
\<close>

datatype 'v RustFutureResult = Unfilled | In_m_result 'v | In_m_exception string

text \<open>What the \<open>const void* value\<close> argument of \<open>sender_send\<close> points to.\<close>

datatype 'v send_value = Null_value | Result_ptr "'v RustFutureResult" | Message_ptr string

text \<open>
  \<open>rust::Box<Future>\<close>, \<open>rust::Box<RustSender<Future>>\<close> and \<open>RustExeclet*\<close> are handles
  into the producer-side state \<open>'r\<close>. \<open>future_poll\<close> receives the result slot through a
  pointer and returns the status; the model hands it the slot and takes back the slot it
  leaves. \<open>sender_send\<close> receives its value through a pointer to \<open>const\<close>.
\<close>

record ('r, 'v) Vtable =
  channel :: "ptr \<Rightarrow> 'r \<Rightarrow> (ptr \<times> ptr) \<times> 'r"
  sender_send :: "ptr \<Rightarrow> u32 \<Rightarrow> 'v send_value \<Rightarrow> ptr option \<Rightarrow> 'r \<Rightarrow> u32 \<times> 'r"
  future_poll :: "ptr \<Rightarrow> 'v RustFutureResult \<Rightarrow> ptr \<Rightarrow> 'r \<Rightarrow> (u32 \<times> 'v RustFutureResult) \<times> 'r"

record RustChannel =
  future :: ptr
  sender :: ptr

record 'v RustFutureReceiver =
  m_future :: ptr
  m_result :: "'v RustFutureResult"
  m_status :: FuturePollStatus

record RustAwaiter =
  m_receiver :: ptr

record 'v RustStreamAwaiter =
  m_sender :: ptr
  m_value :: 'v

datatype Continuation = CoroutineHandleContinuation ptr

text \<open>
  The two closures the header stores in \<open>m_wake_fn\<close>, with what each captures: the
  \<open>weak_ptr\<close> to the receiver (\<open>RustAwaiter::await_suspend\<close>) and the \<open>this\<close> of the stream
  awaiter (\<open>RustStreamAwaiter::await_suspend\<close>).
\<close>

datatype WakeFn = RustAwaiter_wake_fn ptr | RustStreamAwaiter_wake_fn ptr

record SuspendedCoroutine =
  m_refcount :: uintptr_t
  m_next :: "Continuation option"
  m_wake_fn :: WakeFn

record RustPromiseBase =
  m_execlet :: ptr
  m_channel :: RustChannel

datatype 'v event =
    Continuation_resume Continuation
  | Continuation_destroy Continuation
  | Delete_SuspendedCoroutine ptr
  | Call_sender_send ptr u32 "'v send_value" "ptr option"
  | Call_future_poll ptr ptr u32

text \<open>
  The store. An address that a map does not hold is an object that was never allocated
  or has been destroyed: \<open>weak_ptr::lock\<close> finds nothing there, and any other access is
  undefined behaviour. \<open>Call_future_poll\<close> records the status the call returned.
\<close>

record ('r, 'v) world =
  coroutines :: "ptr \<rightharpoonup> SuspendedCoroutine"
  receivers :: "ptr \<rightharpoonup> 'v RustFutureReceiver"
  stream_awaiters :: "ptr \<rightharpoonup> 'v RustStreamAwaiter"
  heap_next :: ptr
  rust :: 'r
  trace :: "'v event list"

subsection \<open>SuspendedCoroutine\<close>

definition new_SuspendedCoroutine ::
  "Continuation option \<Rightarrow> WakeFn \<Rightarrow> (ptr, ('r, 'v) world) prog" where
  "new_SuspendedCoroutine next wake_fn w =
     (let this = heap_next w in
      (Inr this,
       w\<lparr>coroutines := (coroutines w)(this \<mapsto>
            \<lparr>m_refcount = 1, m_next = next, m_wake_fn = wake_fn\<rparr>),
         heap_next := Suc this\<rparr>))"

definition forget_coroutine_handle :: "ptr \<Rightarrow> (unit, ('r, 'v) world) prog" where
  "forget_coroutine_handle this w =
     (case coroutines w this of
        None \<Rightarrow> (Inl UndefinedBehaviour, w)
      | Some c \<Rightarrow> (Inr (), w\<lparr>coroutines := (coroutines w)(this \<mapsto> c\<lparr>m_next := None\<rparr>)\<rparr>))"

text \<open>\<open>delete this\<close>: the destructor, then the object is gone.\<close>

definition delete_SuspendedCoroutine :: "ptr \<Rightarrow> (unit, ('r, 'v) world) prog" where
  "delete_SuspendedCoroutine this w =
     (case coroutines w this of
        None \<Rightarrow> (Inl UndefinedBehaviour, w)
      | Some c \<Rightarrow>
          (Inr (),
           w\<lparr>coroutines := (coroutines w)(this := None),
             trace := trace w
               @ (case m_next c of None \<Rightarrow> [] | Some k \<Rightarrow> [Continuation_destroy k])
               @ [Delete_SuspendedCoroutine this]\<rparr>))"

definition add_ref :: "ptr \<Rightarrow> (ptr, ('r, 'v) world) prog" where
  "add_ref this w =
     (case coroutines w this of
        None \<Rightarrow> (Inl UndefinedBehaviour, w)
      | Some c \<Rightarrow>
          (Inr this,
           w\<lparr>coroutines := (coroutines w)(this \<mapsto> c\<lparr>m_refcount := m_refcount c + 1\<rparr>)\<rparr>))"

definition release :: "ptr \<Rightarrow> (unit, ('r, 'v) world) prog" where
  "release this w =
     (case coroutines w this of
        None \<Rightarrow> (Inl UndefinedBehaviour, w)
      | Some c \<Rightarrow>
          (let last_refcount = m_refcount c in
           prog_bind (cxxasync_assert (last_refcount > 0))
             (\<lambda>_. if last_refcount = 1 then delete_SuspendedCoroutine this
                  else prog_return ())
             (w\<lparr>coroutines := (coroutines w)(this \<mapsto> c\<lparr>m_refcount := last_refcount - 1\<rparr>)\<rparr>)))"

text \<open>
  \<open>next->resume()\<close> runs the resumed coroutine until it suspends again or finishes, and
  that code may call back into this \<open>SuspendedCoroutine\<close> before it returns: the resumed
  coroutine ends its \<open>co_await\<close>, the awaiter, the receiver and the producer's future are
  dropped, and with the future the waker it held, which is a \<open>release\<close> of this coroutine.
  The code the continuation runs is the parameter \<open>next_resume\<close>. It is entered in the store
  as \<open>resume\<close> has left it at that point, \<open>m_next\<close> moved out and null, with the transition
  recorded in the trace; its outcome is the outcome of \<open>resume\<close>, which touches the
  coroutine no more after the call.

  The continuation's \<open>destroy\<close> is entered from the \<open>release\<close> that gave the last reference
  back: no holder of a reference is left to call the coroutine from inside it, and it
  stays an event of the trace.
\<close>

definition resume ::
  "(unit, ('r, 'v) world) prog \<Rightarrow> ptr \<Rightarrow> (unit, ('r, 'v) world) prog" where
  "resume next_resume this w =
     (case coroutines w this of
        None \<Rightarrow> (Inl UndefinedBehaviour, w)
      | Some c \<Rightarrow>
          prog_bind (cxxasync_assert (m_next c \<noteq> None))
            (\<lambda>_ w1. case m_next c of
                None \<Rightarrow> (Inl UndefinedBehaviour, w1)
              | Some next \<Rightarrow>
                  next_resume
                    (w1\<lparr>coroutines := (coroutines w1)(this \<mapsto> c\<lparr>m_next := None\<rparr>),
                       trace := trace w1 @ [Continuation_resume next]\<rparr>))
            w)"

subsection \<open>RustFutureReceiver\<close>

definition new_RustFutureReceiver :: "ptr \<Rightarrow> 'v RustFutureReceiver" where
  "new_RustFutureReceiver fut =
     \<lparr>m_future = fut, m_result = Unfilled, m_status = FuturePollStatus_Pending\<rparr>"

definition RustFutureReceiver_wake ::
  "('r, 'v) Vtable \<Rightarrow> ptr \<Rightarrow> ptr \<Rightarrow> (FutureWakeStatus, ('r, 'v) world) prog" where
  "RustFutureReceiver_wake vtable this coroutine w =
     (case receivers w this of
        None \<Rightarrow> (Inl UndefinedBehaviour, w)
      | Some r \<Rightarrow>
          if m_status r \<noteq> FuturePollStatus_Pending then
            prog_bind (release coroutine) (\<lambda>_. prog_return FutureWakeStatus_Dead) w
          else
            (case future_poll vtable (m_future r) (m_result r) coroutine (rust w) of
               ((status, result), rs) \<Rightarrow>
                 (Inr status,
                  w\<lparr>receivers := (receivers w)(this \<mapsto> r\<lparr>m_result := result, m_status := status\<rparr>),
                    rust := rs,
                    trace := trace w @ [Call_future_poll (m_future r) coroutine status]\<rparr>)))"

text \<open>
  \<open>get_result\<close> reads the receiver and leaves the store alone. \<open>Error(const char*)\<close> is
  handed \<open>m_exception.c_str()\<close>.
\<close>

definition get_result :: "'v RustFutureReceiver \<Rightarrow> ('v, 'w) prog" where
  "get_result r =
     (if m_status r = FuturePollStatus_Complete then
        (case m_result r of
           In_m_result v \<Rightarrow> prog_return v
         | _ \<Rightarrow> prog_fail UndefinedBehaviour)
      else if m_status r = FuturePollStatus_Error then
        (case m_result r of
           In_m_exception m \<Rightarrow> prog_fail (Thrown (Error (c_str m)))
         | _ \<Rightarrow> prog_fail UndefinedBehaviour)
      else if m_status r = FuturePollStatus_Pending \<or> m_status r = FuturePollStatus_Running then
        prog_bind (cxxasync_assert False) (\<lambda>_. prog_fail Terminated)
      else prog_fail UndefinedBehaviour)"

subsection \<open>RustStreamAwaiter::poll\_next\<close>

text \<open>
  \<open>moved_from\<close> is what an object of the yielded type holds after it has been moved
  from; it depends on the type.
\<close>

definition poll_next ::
  "('r, 'v) Vtable \<Rightarrow> ('v \<Rightarrow> 'v) \<Rightarrow> ptr \<Rightarrow> ptr \<Rightarrow> (FutureWakeStatus, ('r, 'v) world) prog" where
  "poll_next vtable moved_from this coroutine w =
     (case stream_awaiters w this of
        None \<Rightarrow> (Inl UndefinedBehaviour, w)
      | Some a \<Rightarrow>
          (let result = In_m_result (m_value a);
               a1 = a\<lparr>m_value := moved_from (m_value a)\<rparr>
           in prog_bind (add_ref coroutine)
                (\<lambda>waker_data w1.
                   case sender_send vtable (m_sender a) FuturePollStatus_Running
                          (Result_ptr result) (Some waker_data) (rust w1) of
                     (send_result, rs) \<Rightarrow>
                       (let w2 = w1\<lparr>rust := rs,
                                   trace := trace w1 @ [Call_sender_send (m_sender a)
                                     FuturePollStatus_Running (Result_ptr result) (Some waker_data)]\<rparr>
                        in if send_result = RustSendResult_Sent then
                             (Inr FutureWakeStatus_Complete, w2)
                           else if send_result = RustSendResult_Wait then
                             (case result of
                                In_m_result v \<Rightarrow>
                                  (Inr FutureWakeStatus_Pending,
                                   w2\<lparr>stream_awaiters :=
                                        (stream_awaiters w2)(this \<mapsto> a1\<lparr>m_value := v\<rparr>)\<rparr>)
                              | _ \<Rightarrow> (Inl UndefinedBehaviour, w2))
                           else if send_result = RustSendResult_Finished then
                             prog_bind (cxxasync_assert False) (\<lambda>_. prog_fail Terminated) w2
                           else (Inl UndefinedBehaviour, w2)))
                (w\<lparr>stream_awaiters := (stream_awaiters w)(this \<mapsto> a1)\<rparr>)))"

subsection \<open>Wake closures, wake and initial\_suspend\<close>

text \<open>The body of the closure built in \<open>RustAwaiter::await_suspend\<close>.\<close>

definition RustAwaiter_wake ::
  "('r, 'v) Vtable \<Rightarrow> ptr \<Rightarrow> ptr \<Rightarrow> (FutureWakeStatus, ('r, 'v) world) prog" where
  "RustAwaiter_wake vtable weak_receiver coroutine w =
     (case receivers w weak_receiver of
        None \<Rightarrow> (Inr FutureWakeStatus_Dead, w)
      | Some _ \<Rightarrow>
          prog_bind (add_ref coroutine) (RustFutureReceiver_wake vtable weak_receiver) w)"

definition SuspendedCoroutine_wake ::
  "('r, 'v) Vtable \<Rightarrow> ('v \<Rightarrow> 'v) \<Rightarrow> ptr \<Rightarrow> (FutureWakeStatus, ('r, 'v) world) prog" where
  "SuspendedCoroutine_wake vtable moved_from this w =
     (case coroutines w this of
        None \<Rightarrow> (Inl UndefinedBehaviour, w)
      | Some c \<Rightarrow>
          (case m_wake_fn c of
             RustAwaiter_wake_fn weak_receiver \<Rightarrow> RustAwaiter_wake vtable weak_receiver this w
           | RustStreamAwaiter_wake_fn awaiter \<Rightarrow> poll_next vtable moved_from awaiter this w))"

definition initial_suspend ::
  "('r, 'v) Vtable \<Rightarrow> ('v \<Rightarrow> 'v) \<Rightarrow> ptr \<Rightarrow> (bool, ('r, 'v) world) prog" where
  "initial_suspend vtable moved_from this =
     prog_bind (SuspendedCoroutine_wake vtable moved_from this)
       (\<lambda>status.
          (let done = wake_status_is_done status in
           prog_bind (if done then forget_coroutine_handle this else prog_return ())
             (\<lambda>_. prog_bind (release this) (\<lambda>_. prog_return (\<not> done)))))"

subsection \<open>The awaiters' await\_suspend\<close>

definition RustAwaiter_await_suspend ::
  "('r, 'v) Vtable \<Rightarrow> ('v \<Rightarrow> 'v) \<Rightarrow> RustAwaiter \<Rightarrow> ptr \<Rightarrow> (bool, ('r, 'v) world) prog" where
  "RustAwaiter_await_suspend vtable moved_from this next =
     prog_bind
       (new_SuspendedCoroutine (Some (CoroutineHandleContinuation next))
          (RustAwaiter_wake_fn (m_receiver this)))
       (initial_suspend vtable moved_from)"

definition RustStreamAwaiter_await_suspend ::
  "('r, 'v) Vtable \<Rightarrow> ('v \<Rightarrow> 'v) \<Rightarrow> ptr \<Rightarrow> ptr \<Rightarrow> (bool, ('r, 'v) world) prog" where
  "RustStreamAwaiter_await_suspend vtable moved_from this next =
     prog_bind
       (new_SuspendedCoroutine (Some (CoroutineHandleContinuation next))
          (RustStreamAwaiter_wake_fn this))
       (initial_suspend vtable moved_from)"

subsection \<open>Promise\<close>

text \<open>
  The default \<open>behavior::TryCatch<T, C>::trycatch\<close>: run \<open>func\<close>; an exception derived from
  \<open>std::exception\<close> is caught and its \<open>what()\<close> passed to \<open>fail\<close>; any other exception is not
  caught and leaves the \<open>noexcept\<close> function.
\<close>

definition trycatch ::
  "(unit, 'w) prog \<Rightarrow> (string \<Rightarrow> (unit, 'w) prog) \<Rightarrow> (unit, 'w) prog" where
  "trycatch func fail =
     noexcept (\<lambda>w. case func w of
        (Inl (Thrown e), w') \<Rightarrow>
          (case what e of Some msg \<Rightarrow> fail msg w' | None \<Rightarrow> (Inl (Thrown e), w'))
      | r \<Rightarrow> r)"

text \<open>
  \<open>unhandled_exception\<close> takes the \<open>TryCatch\<close> specialisation in force (the customisation
  point) and the exception in flight, \<open>std::current_exception()\<close>.
\<close>

definition unhandled_exception ::
  "((unit, ('r, 'v) world) prog \<Rightarrow> (string \<Rightarrow> (unit, ('r, 'v) world) prog) \<Rightarrow> (unit, ('r, 'v) world) prog)
     \<Rightarrow> ('r, 'v) Vtable \<Rightarrow> RustPromiseBase \<Rightarrow> exception \<Rightarrow> (unit, ('r, 'v) world) prog" where
  "unhandled_exception TryCatch_trycatch vtable this current_exception =
     noexcept (TryCatch_trycatch
       (prog_fail (Thrown current_exception))
       (\<lambda>what w.
          case sender_send vtable (sender (m_channel this)) FuturePollStatus_Error
                 (Message_ptr what) None (rust w) of
            (_, rs) \<Rightarrow>
              (Inr (),
               w\<lparr>rust := rs,
                 trace := trace w @ [Call_sender_send (sender (m_channel this))
                   FuturePollStatus_Error (Message_ptr what) None]\<rparr>)))"

definition return_value ::
  "('r, 'v) Vtable \<Rightarrow> RustPromiseBase \<Rightarrow> 'v \<Rightarrow> (unit, ('r, 'v) world) prog" where
  "return_value vtable this v w =
     (let result = In_m_result v in
      case sender_send vtable (sender (m_channel this)) FuturePollStatus_Complete
             (Result_ptr result) None (rust w) of
        (_, rs) \<Rightarrow>
          (Inr (),
           w\<lparr>rust := rs,
             trace := trace w @ [Call_sender_send (sender (m_channel this))
               FuturePollStatus_Complete (Result_ptr result) None]\<rparr>))"

definition return_void ::
  "('r, 'v) Vtable \<Rightarrow> RustPromiseBase \<Rightarrow> (unit, ('r, 'v) world) prog" where
  "return_void vtable this w =
     (case sender_send vtable (sender (m_channel this)) FuturePollStatus_Complete
             Null_value None (rust w) of
        (_, rs) \<Rightarrow>
          (Inr (),
           w\<lparr>rust := rs,
             trace := trace w @ [Call_sender_send (sender (m_channel this))
               FuturePollStatus_Complete Null_value None]\<rparr>))"

subsection \<open>Call sequences\<close>

text \<open>
  Successive calls of \<open>wake\<close> on one receiver, each with the coroutine reference it is
  handed. The receiver's mutex makes every call atomic with respect to the others, so any
  concurrent use is some such sequence. The statuses the calls return are collected; the
  sequence stops at a call that fails.
\<close>

fun wake_calls ::
  "('r, 'v) Vtable \<Rightarrow> ptr \<Rightarrow> ptr list \<Rightarrow> ('r, 'v) world \<Rightarrow> FutureWakeStatus list \<times> ('r, 'v) world" where
  "wake_calls vtable this [] w = ([], w)"
| "wake_calls vtable this (coroutine # rest) w =
     (case RustFutureReceiver_wake vtable this coroutine w of
        (Inl e, w1) \<Rightarrow> ([], w1)
      | (Inr status, w1) \<Rightarrow>
          (case wake_calls vtable this rest w1 of
             (statuses, w2) \<Rightarrow> (status # statuses, w2)))"

text \<open>The statuses returned by the \<open>future_poll\<close> calls of a trace, in order.\<close>

fun poll_statuses :: "'v event list \<Rightarrow> FuturePollStatus list" where
  "poll_statuses [] = []"
| "poll_statuses (Call_future_poll fut waker status # evs) = status # poll_statuses evs"
| "poll_statuses (_ # evs) = poll_statuses evs"

text \<open>
  Calls of the public member functions of one \<open>SuspendedCoroutine\<close>. \<open>fetch_add\<close> and
  \<open>fetch_sub\<close> are atomic, and only the \<open>release\<close> that read 1 goes on to \<open>delete this\<close>, so
  calls made from several threads act as some sequence of calls. A call of \<open>resume\<close> comes
  with the calls that the resumed continuation makes on the coroutine while \<open>resume\<close> is
  still running; they may in turn be calls of \<open>resume\<close>.
\<close>

datatype coroutine_call =
    Call_add_ref
  | Call_release
  | Call_wake
  | Call_initial_suspend
  | Call_resume "coroutine_call list"

fun perform_call ::
  "('r, 'v) Vtable \<Rightarrow> ('v \<Rightarrow> 'v) \<Rightarrow> ptr \<Rightarrow> coroutine_call \<Rightarrow> (unit, ('r, 'v) world) prog"
and run_calls ::
  "('r, 'v) Vtable \<Rightarrow> ('v \<Rightarrow> 'v) \<Rightarrow> ptr \<Rightarrow> coroutine_call list \<Rightarrow> (unit, ('r, 'v) world) prog" where
  "perform_call vtable moved_from this Call_add_ref =
     prog_bind (add_ref this) (\<lambda>_. prog_return ())"
| "perform_call vtable moved_from this Call_release = release this"
| "perform_call vtable moved_from this Call_wake =
     prog_bind (SuspendedCoroutine_wake vtable moved_from this) (\<lambda>_. prog_return ())"
| "perform_call vtable moved_from this Call_initial_suspend =
     prog_bind (initial_suspend vtable moved_from this) (\<lambda>_. prog_return ())"
| "perform_call vtable moved_from this (Call_resume during) =
     resume (run_calls vtable moved_from this during) this"
| "run_calls vtable moved_from this [] = prog_return ()"
| "run_calls vtable moved_from this (c # cs) =
     prog_bind (perform_call vtable moved_from this c)
       (\<lambda>_. run_calls vtable moved_from this cs)"


text \<open>The continuation transitions (\<open>resume\<close> or \<open>destroy\<close>) of a trace.\<close>

fun continuation_events :: "'v event list \<Rightarrow> 'v event list" where
  "continuation_events [] = []"
| "continuation_events (Continuation_resume k # evs) =
     Continuation_resume k # continuation_events evs"
| "continuation_events (Continuation_destroy k # evs) =
     Continuation_destroy k # continuation_events evs"
| "continuation_events (_ # evs) = continuation_events evs"

text \<open>
  How many continuations the coroutine at \<open>this\<close> still holds: one while \<open>m_next\<close> is set,
  none once it is null or the coroutine is gone.
\<close>

definition attached :: "('r, 'v) world \<Rightarrow> ptr \<Rightarrow> nat" where
  "attached w this =
     (case coroutines w this of
        None \<Rightarrow> 0
      | Some c \<Rightarrow> (case m_next c of None \<Rightarrow> 0 | Some k \<Rightarrow> 1))"

text \<open>
  A piece of code spends the continuation of \<open>this\<close> when it only appends to the trace and
  every continuation transition it appends is paid for by a continuation that \<open>this\<close> held
  before and no longer holds.
\<close>

definition spends_continuation :: "ptr \<Rightarrow> ('a, ('r, 'v) world) prog \<Rightarrow> bool" where
  "spends_continuation this f \<longleftrightarrow>
     (\<forall>w. \<exists>evs. trace (snd (f w)) = trace w @ evs
        \<and> length (continuation_events evs) + attached (snd (f w)) this \<le> attached w this)"

subsection \<open>A scripted producer\<close>

text \<open>
  A producer whose state is the list of codes it will answer the coming vtable calls with.
  A poll answered \<open>Complete\<close> writes the value 42, one answered \<open>Error\<close> the message
  \<open>boom\<close>; with the script used up a poll is \<open>Pending\<close> and a send is \<open>Sent\<close>.
\<close>

definition scripted_vtable :: "(u32 list, nat) Vtable" where
  "scripted_vtable =
     \<lparr>channel = (\<lambda>execlet rs. ((20, 40), rs)),
      sender_send = (\<lambda>self status v waker_data rs.
        case rs of [] \<Rightarrow> (RustSendResult_Sent, []) | code # rest \<Rightarrow> (code, rest)),
      future_poll = (\<lambda>self result waker_data rs.
        case rs of
          [] \<Rightarrow> ((FuturePollStatus_Pending, result), [])
        | code # rest \<Rightarrow>
            ((code,
              if code = FuturePollStatus_Complete then In_m_result 42
              else if code = FuturePollStatus_Error then In_m_exception ''boom''
              else result), rest))\<rparr>"

text \<open>
  A store with one pending receiver (at 10, for the future 20), one stream awaiter (at 30,
  yielding 7 to the sender 40) and no coroutine yet; and the promise that owns the channel.
\<close>

definition scripted_world :: "u32 list \<Rightarrow> (u32 list, nat) world" where
  "scripted_world script =
     \<lparr>coroutines = Map.empty,
      receivers = [10 \<mapsto> new_RustFutureReceiver 20],
      stream_awaiters = [30 \<mapsto> \<lparr>m_sender = 40, m_value = 7\<rparr>],
      heap_next = 100,
      rust = script,
      trace = []\<rparr>"

definition scripted_promise :: RustPromiseBase where
  "scripted_promise = \<lparr>m_execlet = 50, m_channel = \<lparr>future = 20, sender = 40\<rparr>\<rparr>"

text \<open>A coroutine with a given reference count, waiting on the receiver at 10.\<close>

definition counted_coroutine :: "uintptr_t \<Rightarrow> SuspendedCoroutine" where
  "counted_coroutine n =
     \<lparr>m_refcount = n, m_next = Some (CoroutineHandleContinuation 60),
      m_wake_fn = RustAwaiter_wake_fn 10\<rparr>"

section \<open>Properties\<close>

lemmas status_defs =
  FuturePollStatus_Pending_def FuturePollStatus_Complete_def
  FuturePollStatus_Error_def FuturePollStatus_Running_def
  FutureWakeStatus_Pending_def FutureWakeStatus_Complete_def
  FutureWakeStatus_Error_def FutureWakeStatus_Dead_def
  RustSendResult_Wait_def RustSendResult_Sent_def RustSendResult_Finished_def

lemmas prog_defs = prog_return_def prog_fail_def prog_bind_def cxxasync_assert_def

lemma scripted_sender_send:
  "sender_send scripted_vtable self status v waker_data rs =
     (case rs of [] \<Rightarrow> (RustSendResult_Sent, []) | code # rest \<Rightarrow> (code, rest))"
  by (simp add: scripted_vtable_def)

lemma scripted_future_poll:
  "future_poll scripted_vtable self result waker_data rs =
     (case rs of
        [] \<Rightarrow> ((FuturePollStatus_Pending, result), [])
      | code # rest \<Rightarrow>
          ((code,
            if code = FuturePollStatus_Complete then In_m_result 42
            else if code = FuturePollStatus_Error then In_m_exception ''boom''
            else result), rest))"
  by (simp add: scripted_vtable_def)

lemmas scripted_defs =
  scripted_sender_send scripted_future_poll scripted_world_def scripted_promise_def
  counted_coroutine_def new_RustFutureReceiver_def

subsection \<open>SuspendedCoroutine::release\<close>

text \<open>
  Claim C10. \<open>release\<close> decrements the counter and then asserts that the count it read was
  strictly positive. On a coroutine whose count is already zero the assertion fails (the
  counter has wrapped to the largest value by then, but the failure is fatal and nothing is
  deleted); the coroutine is deleted, its destructor run, exactly when the count read was
  one; for every other count the call only decrements.
\<close>

theorem release_asserts_positive_refcount:
  assumes "coroutines w this = Some c"
  shows "(m_refcount c = 0 \<longrightarrow>
            release this w =
              (Inl AssertionFailed,
               w\<lparr>coroutines := (coroutines w)(this \<mapsto> c\<lparr>m_refcount := - 1\<rparr>)\<rparr>))
       \<and> (m_refcount c = 1 \<longrightarrow>
            release this w =
              (Inr (),
               w\<lparr>coroutines := (coroutines w)(this := None),
                 trace := trace w
                   @ (case m_next c of None \<Rightarrow> [] | Some k \<Rightarrow> [Continuation_destroy k])
                   @ [Delete_SuspendedCoroutine this]\<rparr>))
       \<and> (m_refcount c \<noteq> 0 \<and> m_refcount c \<noteq> 1 \<longrightarrow>
            release this w =
              (Inr (),
               w\<lparr>coroutines := (coroutines w)(this \<mapsto> c\<lparr>m_refcount := m_refcount c - 1\<rparr>)\<rparr>))"
  using assms
  by (simp add: release_def prog_defs delete_SuspendedCoroutine_def word_gt_0)

text \<open>The three cases at the counts 0, 1 and 2.\<close>

theorem release_asserts_positive_refcount_witness:
  "fst (release 100 ((scripted_world [])\<lparr>coroutines := [100 \<mapsto> counted_coroutine 0]\<rparr>))
     = Inl AssertionFailed
   \<and> release 100 ((scripted_world [])\<lparr>coroutines := [100 \<mapsto> counted_coroutine 1]\<rparr>)
     = (Inr (), (scripted_world [])
          \<lparr>trace := [Continuation_destroy (CoroutineHandleContinuation 60),
                     Delete_SuspendedCoroutine 100]\<rparr>)
   \<and> release 100 ((scripted_world [])\<lparr>coroutines := [100 \<mapsto> counted_coroutine 2]\<rparr>)
     = (Inr (), (scripted_world [])\<lparr>coroutines := [100 \<mapsto> counted_coroutine 1]\<rparr>)"
  using release_asserts_positive_refcount
          [of "(scripted_world [])\<lparr>coroutines := [100 \<mapsto> counted_coroutine 0]\<rparr>"
              100 "counted_coroutine 0"]
        release_asserts_positive_refcount
          [of "(scripted_world [])\<lparr>coroutines := [100 \<mapsto> counted_coroutine 1]\<rparr>"
              100 "counted_coroutine 1"]
        release_asserts_positive_refcount
          [of "(scripted_world [])\<lparr>coroutines := [100 \<mapsto> counted_coroutine 2]\<rparr>"
              100 "counted_coroutine 2"]
  by (simp add: scripted_defs)

subsection \<open>RustFutureReceiver::get\_result\<close>

text \<open>
  Claim C2, as stated, says that with status \<open>Error\<close> the thrown \<open>Error\<close> carries the stored
  message string. The message is stored as a \<open>rust::String\<close> and reaches \<open>Error\<close> as a C
  string: a stored message with a NUL byte inside is cut at that byte.
\<close>

theorem get_result_error_message_counterexample:
  "get_result
     \<lparr>m_future = 20,
      m_result = In_m_exception [CHR ''a'', CHR 0x00, CHR ''b''] :: nat RustFutureResult,
      m_status = FuturePollStatus_Error\<rparr> ()
     = (Inl (Thrown (Error ''a'')), ())
   \<and> fst (get_result
     \<lparr>m_future = 20,
      m_result = In_m_exception [CHR ''a'', CHR 0x00, CHR ''b''] :: nat RustFutureResult,
      m_status = FuturePollStatus_Error\<rparr> ())
     \<noteq> Inl (Thrown (Error [CHR ''a'', CHR 0x00, CHR ''b'']))"
  by (simp add: get_result_def status_defs c_str_def prog_defs)

text \<open>
  Claim C2, amended. \<open>get_result\<close> returns the stored value when the status is \<open>Complete\<close>;
  when the status is \<open>Error\<close> it throws an \<open>Error\<close> carrying the stored message up to its
  first NUL byte, which is the whole message when it has no NUL byte; when the status is
  still \<open>Pending\<close> or \<open>Running\<close> the assertion fails, which is fatal and not an exception.
  The store is never changed.
\<close>

theorem get_result_outcomes:
  "(m_status r = FuturePollStatus_Complete \<and> m_result r = In_m_result v \<longrightarrow>
      get_result r w = (Inr v, w))
   \<and> (m_status r = FuturePollStatus_Error \<and> m_result r = In_m_exception msg \<longrightarrow>
      get_result r w = (Inl (Thrown (Error (takeWhile (\<lambda>c. c \<noteq> CHR 0x00) msg))), w)
      \<and> (CHR 0x00 \<notin> set msg \<longrightarrow> get_result r w = (Inl (Thrown (Error msg)), w)))
   \<and> (m_status r = FuturePollStatus_Pending \<or> m_status r = FuturePollStatus_Running \<longrightarrow>
      get_result r w = (Inl AssertionFailed, w))"
  by (auto simp add: get_result_def status_defs c_str_def prog_defs takeWhile_eq_all_conv)

text \<open>The four statuses, with the value 42 and the message \<open>boom\<close>.\<close>

theorem get_result_outcomes_witness:
  "get_result \<lparr>m_future = 20, m_result = In_m_result (42 :: nat),
               m_status = FuturePollStatus_Complete\<rparr> () = (Inr 42, ())
   \<and> get_result \<lparr>m_future = 20, m_result = In_m_exception ''boom'' :: nat RustFutureResult,
                 m_status = FuturePollStatus_Error\<rparr> () = (Inl (Thrown (Error ''boom'')), ())
   \<and> get_result \<lparr>m_future = 20, m_result = Unfilled :: nat RustFutureResult,
                 m_status = FuturePollStatus_Pending\<rparr> () = (Inl AssertionFailed, ())
   \<and> get_result \<lparr>m_future = 20, m_result = Unfilled :: nat RustFutureResult,
                 m_status = FuturePollStatus_Running\<rparr> () = (Inl AssertionFailed, ())"
  using get_result_outcomes
          [of "\<lparr>m_future = 20, m_result = In_m_result (42 :: nat),
                m_status = FuturePollStatus_Complete\<rparr>" 42 "()" "[]"]
        get_result_outcomes
          [of "\<lparr>m_future = 20, m_result = In_m_exception ''boom'' :: nat RustFutureResult,
                m_status = FuturePollStatus_Error\<rparr>" 0 "()" "''boom''"]
        get_result_outcomes
          [of "\<lparr>m_future = 20, m_result = Unfilled :: nat RustFutureResult,
                m_status = FuturePollStatus_Pending\<rparr>" 0 "()" "[]"]
        get_result_outcomes
          [of "\<lparr>m_future = 20, m_result = Unfilled :: nat RustFutureResult,
                m_status = FuturePollStatus_Running\<rparr>" 0 "()" "[]"]
  by simp

subsection \<open>The wake callback of RustAwaiter after the receiver is gone\<close>

text \<open>
  Claim C7. When the \<open>weak_ptr\<close> captured by the wake callback of a \<open>RustAwaiter\<close> no longer
  resolves, the callback returns \<open>Dead\<close> and leaves the store as it found it: the receiver
  is not touched, nothing is polled, no reference count changes. This is a normal return,
  not a failure. It holds for the closure body and for a wake delivered through the
  coroutine that stores the closure.
\<close>

theorem wake_after_receiver_destroyed:
  assumes "receivers w weak_receiver = None"
  shows "RustAwaiter_wake vtable weak_receiver coroutine w = (Inr FutureWakeStatus_Dead, w)
       \<and> (coroutines w this = Some c \<and> m_wake_fn c = RustAwaiter_wake_fn weak_receiver \<longrightarrow>
            SuspendedCoroutine_wake vtable moved_from this w = (Inr FutureWakeStatus_Dead, w))"
  using assms by (simp add: SuspendedCoroutine_wake_def RustAwaiter_wake_def)

text \<open>
  A coroutine suspended on the receiver at 10 (two references: the producer's waker and
  one more), woken after the receiver has been destroyed.
\<close>

theorem wake_after_receiver_destroyed_witness:
  "receivers ((scripted_world [FuturePollStatus_Complete])
       \<lparr>coroutines := [100 \<mapsto> counted_coroutine 2], receivers := Map.empty\<rparr>) 10 = None
   \<and> SuspendedCoroutine_wake scripted_vtable (\<lambda>v. v) 100
       ((scripted_world [FuturePollStatus_Complete])
          \<lparr>coroutines := [100 \<mapsto> counted_coroutine 2], receivers := Map.empty\<rparr>)
     = (Inr FutureWakeStatus_Dead,
        (scripted_world [FuturePollStatus_Complete])
          \<lparr>coroutines := [100 \<mapsto> counted_coroutine 2], receivers := Map.empty\<rparr>)"
  using wake_after_receiver_destroyed
          [of "(scripted_world [FuturePollStatus_Complete])
                 \<lparr>coroutines := [100 \<mapsto> counted_coroutine 2], receivers := Map.empty\<rparr>"
              10 scripted_vtable 100 100 "counted_coroutine 2" "\<lambda>v. v"]
  by (simp add: scripted_defs)

subsection \<open>RustPromiseBase::unhandled\_exception\<close>

text \<open>
  Claim C8, as stated, covers every failure raised in the coroutine. The default
  \<open>TryCatch\<close> catches \<open>const std::exception&\<close> only: an exception of another type leaves the
  \<open>noexcept\<close> function, the program is terminated and nothing is sent.
\<close>

theorem unhandled_exception_non_std_counterexample:
  "fst (unhandled_exception trycatch scripted_vtable scripted_promise non_std_exception
          (scripted_world [])) = Inl Terminated
   \<and> trace (snd (unhandled_exception trycatch scripted_vtable scripted_promise
                   non_std_exception (scripted_world []))) = []"
  by (simp add: unhandled_exception_def trycatch_def noexcept_def prog_defs scripted_defs)

text \<open>
  Claim C8, amended. \<open>unhandled_exception\<close> hands the exception in flight to the \<open>TryCatch\<close>
  strategy in force. A strategy reduces the exception to a message when, for every handler
  \<open>fail\<close> that returns normally on that message, all the strategy does is that one call of
  \<open>fail\<close> with the message; a strategy declared \<open>noexcept\<close>, as the header prescribes, can be
  of this kind. For every such strategy exactly one \<open>sender_send\<close> is performed on the
  promise's sender, tagged \<open>Error\<close>, carrying that message and no waker. The default strategy
  is of this kind for every exception derived from \<open>std::exception\<close>, with the text of its
  \<open>what()\<close> as the message; an exception not derived from \<open>std::exception\<close> terminates the
  program without a send.
\<close>

theorem unhandled_exception_default:
  "((\<forall>fail w1. (\<exists>w2. fail msg w1 = (Inr (), w2)) \<longrightarrow>
        strategy (prog_fail (Thrown e)) fail w1 = fail msg w1) \<longrightarrow>
      unhandled_exception strategy vtable this e w =
        (Inr (),
         w\<lparr>rust := snd (sender_send vtable (sender (m_channel this)) FuturePollStatus_Error
                          (Message_ptr msg) None (rust w)),
           trace := trace w @ [Call_sender_send (sender (m_channel this))
                      FuturePollStatus_Error (Message_ptr msg) None]\<rparr>))
   \<and> (what e = Some msg \<longrightarrow>
      (\<forall>fail w1. (\<exists>w2. fail msg w1 = (Inr (), w2)) \<longrightarrow>
          trycatch (prog_fail (Thrown e)) fail w1 = fail msg w1)
      \<and> unhandled_exception trycatch vtable this e w =
        (Inr (),
         w\<lparr>rust := snd (sender_send vtable (sender (m_channel this)) FuturePollStatus_Error
                          (Message_ptr msg) None (rust w)),
           trace := trace w @ [Call_sender_send (sender (m_channel this))
                      FuturePollStatus_Error (Message_ptr msg) None]\<rparr>))
   \<and> (what e = None \<longrightarrow>
      unhandled_exception trycatch vtable this e w = (Inl Terminated, w))"
proof (intro conjI impI)
  define send :: "string \<Rightarrow> (unit, ('a, 'b) world) prog" where
    "send = (\<lambda>what w.
      case sender_send vtable (sender (m_channel this)) FuturePollStatus_Error
             (Message_ptr what) None (rust w) of
        (_, rs) \<Rightarrow>
          (Inr (),
           w\<lparr>rust := rs,
             trace := trace w @ [Call_sender_send (sender (m_channel this))
               FuturePollStatus_Error (Message_ptr what) None]\<rparr>))"
  let ?sent = "w\<lparr>rust := snd (sender_send vtable (sender (m_channel this))
                               FuturePollStatus_Error (Message_ptr msg) None (rust w)),
                  trace := trace w @ [Call_sender_send (sender (m_channel this))
                             FuturePollStatus_Error (Message_ptr msg) None]\<rparr>"
  have sent: "send msg w = (Inr (), ?sent)"
    by (simp add: send_def split: prod.splits)
  have unfold: "unhandled_exception strategy vtable this e =
                  noexcept (strategy (prog_fail (Thrown e)) send)" for strategy
    by (simp add: unhandled_exception_def send_def)
  {
    assume reduces: "\<forall>fail w1. (\<exists>w2. fail msg w1 = (Inr (), w2)) \<longrightarrow>
                       strategy (prog_fail (Thrown e)) fail w1 = fail msg w1"
    have "strategy (prog_fail (Thrown e)) send w = send msg w"
      using reduces sent by blast
    then show "unhandled_exception strategy vtable this e w = (Inr (), ?sent)"
      using sent by (simp add: unfold noexcept_def)
  }
  {
    assume "what e = Some msg"
    then show "\<forall>fail w1. (\<exists>w2. fail msg w1 = (Inr (), w2)) \<longrightarrow>
                 trycatch (prog_fail (Thrown e)) fail w1 = fail msg w1"
      by (auto simp add: trycatch_def noexcept_def prog_defs)
  }
  {
    assume "what e = Some msg"
    then show "unhandled_exception trycatch vtable this e w = (Inr (), ?sent)"
      using sent by (simp add: unfold trycatch_def noexcept_def prog_defs)
  }
  {
    assume "what e = None"
    then show "unhandled_exception trycatch vtable this e w = (Inl Terminated, w)"
      by (simp add: unfold trycatch_def noexcept_def prog_defs)
  }
qed

text \<open>
  A \<open>std::runtime_error("boom")\<close> and a \<open>throw 42\<close> under the default strategy, and a
  \<open>throw 42\<close> under a \<open>noexcept\<close> strategy with a \<open>catch (...)\<close> that reports every failure as
  \<open>custom\<close>.
\<close>

theorem unhandled_exception_default_witness:
  "unhandled_exception trycatch scripted_vtable scripted_promise (std_exception ''boom'')
     (scripted_world [])
     = (Inr (), (scripted_world [])
          \<lparr>trace := [Call_sender_send 40 FuturePollStatus_Error (Message_ptr ''boom'') None]\<rparr>)
   \<and> unhandled_exception trycatch scripted_vtable scripted_promise non_std_exception
       (scripted_world [])
     = (Inl Terminated, scripted_world [])
   \<and> unhandled_exception
       (\<lambda>func fail. noexcept (\<lambda>w. case func w of
                                      (Inl (Thrown e), w') \<Rightarrow> fail ''custom'' w'
                                    | r \<Rightarrow> r))
       scripted_vtable scripted_promise non_std_exception (scripted_world [])
     = (Inr (), (scripted_world [])
          \<lparr>trace := [Call_sender_send 40 FuturePollStatus_Error (Message_ptr ''custom'') None]\<rparr>)"
proof -
  let ?custom = "\<lambda>func fail. noexcept (\<lambda>w. case func w of
                                             (Inl (Thrown e), w') \<Rightarrow> fail ''custom'' w'
                                           | r \<Rightarrow> r)"
  have reduces: "\<forall>fail w1. (\<exists>w2. fail ''custom'' w1 = (Inr (), w2)) \<longrightarrow>
                   ?custom (prog_fail (Thrown non_std_exception)) fail w1 = fail ''custom'' w1"
    by (auto simp add: noexcept_def prog_defs)
  have boom: "what (std_exception ''boom'') = Some ''boom''" by simp
  have other: "what non_std_exception = None" by simp
  note default_boom =
    unhandled_exception_default
      [of "''boom''" trycatch "std_exception ''boom''" scripted_vtable scripted_promise
          "scripted_world []", THEN conjunct2, THEN conjunct1, THEN mp, OF boom, THEN conjunct2]
  note default_other =
    unhandled_exception_default
      [of "[]" trycatch non_std_exception scripted_vtable scripted_promise
          "scripted_world []", THEN conjunct2, THEN conjunct2, THEN mp, OF other]
  note custom =
    unhandled_exception_default
      [of "''custom''" ?custom non_std_exception scripted_vtable scripted_promise
          "scripted_world []", THEN conjunct1, THEN mp, OF reduces]
  show ?thesis
    unfolding default_boom default_other custom
    by (simp add: scripted_defs)
qed

subsection \<open>RustPromise::return\_value and return\_void\<close>

text \<open>
  Claim C9. \<open>return_value\<close> and \<open>return_void\<close> each perform exactly one \<open>sender_send\<close> on the
  promise's sender, tagged \<open>Complete\<close> and with no waker: \<open>return_value\<close> passes a pointer to
  a \<open>RustFutureResult\<close> holding the returned value, \<open>return_void\<close> passes a null pointer. The
  value \<open>sender_send\<close> returns is ignored.
\<close>

theorem promise_return_sends_once:
  "return_value vtable this v w =
     (Inr (),
      w\<lparr>rust := snd (sender_send vtable (sender (m_channel this)) FuturePollStatus_Complete
                       (Result_ptr (In_m_result v)) None (rust w)),
        trace := trace w @ [Call_sender_send (sender (m_channel this))
                   FuturePollStatus_Complete (Result_ptr (In_m_result v)) None]\<rparr>)
   \<and> return_void vtable this w =
     (Inr (),
      w\<lparr>rust := snd (sender_send vtable (sender (m_channel this)) FuturePollStatus_Complete
                       Null_value None (rust w)),
        trace := trace w @ [Call_sender_send (sender (m_channel this))
                   FuturePollStatus_Complete Null_value None]\<rparr>)"
  by (simp add: return_value_def return_void_def Let_def split: prod.splits)

theorem promise_return_sends_once_witness:
  "return_value scripted_vtable scripted_promise 42 (scripted_world [])
     = (Inr (), (scripted_world [])
          \<lparr>trace := [Call_sender_send 40 FuturePollStatus_Complete
                       (Result_ptr (In_m_result 42)) None]\<rparr>)
   \<and> return_void scripted_vtable scripted_promise (scripted_world [])
     = (Inr (), (scripted_world [])
          \<lparr>trace := [Call_sender_send 40 FuturePollStatus_Complete Null_value None]\<rparr>)"
  using promise_return_sends_once [of scripted_vtable scripted_promise 42 "scripted_world []"]
  by (simp add: scripted_defs)

subsection \<open>RustStreamAwaiter::poll\_next\<close>

text \<open>
  Claim C3. \<open>poll_next\<close> on an awaiter holding the yielded value takes one more reference
  to the coroutine and sends the value, tagged \<open>Running\<close>, with the coroutine as waker; that
  is its only vtable call. If the send returns \<open>Sent\<close>, \<open>poll_next\<close> returns \<open>Complete\<close>. If
  it returns \<open>Wait\<close>, \<open>poll_next\<close> returns \<open>Pending\<close>, the awaiter holds the value it held
  before, and a retried \<open>poll_next\<close> sends the identical value again. If it returns
  \<open>Finished\<close>, the assertion fails.
\<close>

theorem poll_next_backpressure:
  assumes "stream_awaiters w this = Some a"
      and "coroutines w coroutine = Some c"
      and "sender_send vtable (m_sender a) FuturePollStatus_Running
             (Result_ptr (In_m_result (m_value a))) (Some coroutine) (rust w) = (send_result, rs)"
  shows "let sent = Call_sender_send (m_sender a) FuturePollStatus_Running
                      (Result_ptr (In_m_result (m_value a))) (Some coroutine);
             w1 = w\<lparr>coroutines := (coroutines w)(coroutine \<mapsto> c\<lparr>m_refcount := m_refcount c + 1\<rparr>),
                    rust := rs,
                    trace := trace w @ [sent]\<rparr>;
             w2 = w1\<lparr>stream_awaiters :=
                       (stream_awaiters w)(this \<mapsto> a\<lparr>m_value := moved_from (m_value a)\<rparr>)\<rparr>
         in (send_result = RustSendResult_Sent \<longrightarrow>
               poll_next vtable moved_from this coroutine w = (Inr FutureWakeStatus_Complete, w2))
          \<and> (send_result = RustSendResult_Wait \<longrightarrow>
               poll_next vtable moved_from this coroutine w = (Inr FutureWakeStatus_Pending, w1)
               \<and> stream_awaiters w1 this = Some a
               \<and> trace (snd (poll_next vtable moved_from this coroutine w1)) = trace w1 @ [sent])
          \<and> (send_result = RustSendResult_Finished \<longrightarrow>
               poll_next vtable moved_from this coroutine w = (Inl AssertionFailed, w2))"
proof -
  have upd: "(stream_awaiters w)(this \<mapsto> a) = stream_awaiters w"
    using assms(1) by (rule map_upd_triv)
  show ?thesis
    using assms
    by (auto simp add: poll_next_def add_ref_def prog_defs status_defs Let_def upd
             split: prod.splits)
qed

text \<open>
  The awaiter at 30 yields 7. A producer that answers \<open>Wait\<close> and then \<open>Sent\<close> sees 7 in
  both sends; producers that answer \<open>Sent\<close> or \<open>Finished\<close> at once.
\<close>

theorem poll_next_backpressure_witness:
  "poll_next scripted_vtable (\<lambda>v. v) 30 100
     ((scripted_world [RustSendResult_Wait, RustSendResult_Sent])
        \<lparr>coroutines := [100 \<mapsto> counted_coroutine 1]\<rparr>)
     = (Inr FutureWakeStatus_Pending,
        (scripted_world [RustSendResult_Sent])
          \<lparr>coroutines := [100 \<mapsto> counted_coroutine 2],
            trace := [Call_sender_send 40 FuturePollStatus_Running
                        (Result_ptr (In_m_result 7)) (Some 100)]\<rparr>)
   \<and> poll_next scripted_vtable (\<lambda>v. v) 30 100
       ((scripted_world [RustSendResult_Sent])
          \<lparr>coroutines := [100 \<mapsto> counted_coroutine 2],
            trace := [Call_sender_send 40 FuturePollStatus_Running
                        (Result_ptr (In_m_result 7)) (Some 100)]\<rparr>)
     = (Inr FutureWakeStatus_Complete,
        (scripted_world [])
          \<lparr>coroutines := [100 \<mapsto> counted_coroutine 3],
            trace := [Call_sender_send 40 FuturePollStatus_Running
                        (Result_ptr (In_m_result 7)) (Some 100),
                      Call_sender_send 40 FuturePollStatus_Running
                        (Result_ptr (In_m_result 7)) (Some 100)]\<rparr>)
   \<and> fst (poll_next scripted_vtable (\<lambda>v. v) 30 100
       ((scripted_world [RustSendResult_Finished])
          \<lparr>coroutines := [100 \<mapsto> counted_coroutine 1]\<rparr>))
     = Inl AssertionFailed"
  using poll_next_backpressure
          [of "(scripted_world [RustSendResult_Wait, RustSendResult_Sent])
                 \<lparr>coroutines := [100 \<mapsto> counted_coroutine 1]\<rparr>"
              30 "\<lparr>m_sender = 40, m_value = 7\<rparr>" 100 "counted_coroutine 1"
              scripted_vtable RustSendResult_Wait "[RustSendResult_Sent]" "\<lambda>v. v"]
        poll_next_backpressure
          [of "(scripted_world [RustSendResult_Sent])
                 \<lparr>coroutines := [100 \<mapsto> counted_coroutine 2],
                   trace := [Call_sender_send 40 FuturePollStatus_Running
                               (Result_ptr (In_m_result 7)) (Some 100)]\<rparr>"
              30 "\<lparr>m_sender = 40, m_value = 7\<rparr>" 100 "counted_coroutine 2"
              scripted_vtable RustSendResult_Sent "[]" "\<lambda>v. v"]
        poll_next_backpressure
          [of "(scripted_world [RustSendResult_Finished])
                 \<lparr>coroutines := [100 \<mapsto> counted_coroutine 1]\<rparr>"
              30 "\<lparr>m_sender = 40, m_value = 7\<rparr>" 100 "counted_coroutine 1"
              scripted_vtable RustSendResult_Finished "[]" "\<lambda>v. v"]
  by (simp add: scripted_defs status_defs Let_def)

subsection \<open>SuspendedCoroutine::initial\_suspend\<close>

text \<open>
  Claim C5. \<open>initial_suspend\<close> makes one wake attempt and then gives up one reference to the
  coroutine: its whole effect is that of the one \<open>wake\<close>, followed by detaching the
  continuation when the status is terminal, followed by one \<open>release\<close>. When the wake
  reports \<open>Complete\<close> or \<open>Error\<close> the continuation is detached, so that the destructor, should
  the release be the last one, does not destroy it, and the result is \<open>false\<close> (do not
  suspend); for any other status, \<open>Pending\<close> and \<open>Dead\<close> among them, the continuation stays
  attached and the result is \<open>true\<close> (suspend).
\<close>

theorem initial_suspend_one_wake:
  assumes "SuspendedCoroutine_wake vtable moved_from this w = (Inr status, w1)"
      and "coroutines w1 this = Some c1"
      and "m_refcount c1 \<noteq> 0"
  shows "let done = (status = FutureWakeStatus_Complete \<or> status = FutureWakeStatus_Error);
             c2 = (if done then c1\<lparr>m_next := None\<rparr> else c1)
         in initial_suspend vtable moved_from this w =
              (Inr (\<not> done),
               if m_refcount c1 = 1 then
                 w1\<lparr>coroutines := (coroutines w1)(this := None),
                    trace := trace w1
                      @ (case m_next c2 of None \<Rightarrow> [] | Some k \<Rightarrow> [Continuation_destroy k])
                      @ [Delete_SuspendedCoroutine this]\<rparr>
               else
                 w1\<lparr>coroutines := (coroutines w1)(this \<mapsto> c2\<lparr>m_refcount := m_refcount c1 - 1\<rparr>)\<rparr>)
          \<and> (status = FutureWakeStatus_Pending \<or> status = FutureWakeStatus_Dead \<longrightarrow> \<not> done)"
  using assms
  by (auto simp add: initial_suspend_def wake_status_is_done_def forget_coroutine_handle_def
        release_def delete_SuspendedCoroutine_def prog_defs status_defs Let_def word_gt_0)

text \<open>
  A coroutine created by \<open>RustAwaiter::await_suspend\<close> for the receiver at 10. With a
  producer whose first poll is \<open>Complete\<close> the coroutine is not suspended and keeps no
  continuation; with one whose first poll is \<open>Pending\<close> it is suspended, continuation
  attached. One poll is made in either case, and the producer's waker is the one reference
  left.
\<close>

theorem initial_suspend_one_wake_witness:
  "RustAwaiter_await_suspend scripted_vtable (\<lambda>v. v) \<lparr>m_receiver = 10\<rparr> 60
     (scripted_world [FuturePollStatus_Complete])
     = (Inr False,
        (scripted_world [])
          \<lparr>coroutines := [100 \<mapsto> (counted_coroutine 1)\<lparr>m_next := None\<rparr>],
            receivers := [10 \<mapsto> \<lparr>m_future = 20, m_result = In_m_result 42,
                                  m_status = FuturePollStatus_Complete\<rparr>],
            heap_next := 101,
            trace := [Call_future_poll 20 100 FuturePollStatus_Complete]\<rparr>)
   \<and> RustAwaiter_await_suspend scripted_vtable (\<lambda>v. v) \<lparr>m_receiver = 10\<rparr> 60
       (scripted_world [FuturePollStatus_Pending])
     = (Inr True,
        (scripted_world [])
          \<lparr>coroutines := [100 \<mapsto> counted_coroutine 1],
            heap_next := 101,
            trace := [Call_future_poll 20 100 FuturePollStatus_Pending]\<rparr>)"
proof -
  have complete:
    "SuspendedCoroutine_wake scripted_vtable (\<lambda>v. v) 100
       ((scripted_world [FuturePollStatus_Complete])
          \<lparr>coroutines := [100 \<mapsto> counted_coroutine 1], heap_next := 101\<rparr>)
     = (Inr FutureWakeStatus_Complete,
        (scripted_world [])
          \<lparr>coroutines := [100 \<mapsto> counted_coroutine 2],
            receivers := [10 \<mapsto> \<lparr>m_future = 20, m_result = In_m_result 42,
                                  m_status = FuturePollStatus_Complete\<rparr>],
            heap_next := 101,
            trace := [Call_future_poll 20 100 FuturePollStatus_Complete]\<rparr>)"
    by (simp add: SuspendedCoroutine_wake_def RustAwaiter_wake_def RustFutureReceiver_wake_def
          add_ref_def prog_defs scripted_defs status_defs)
  have pending:
    "SuspendedCoroutine_wake scripted_vtable (\<lambda>v. v) 100
       ((scripted_world [FuturePollStatus_Pending])
          \<lparr>coroutines := [100 \<mapsto> counted_coroutine 1], heap_next := 101\<rparr>)
     = (Inr FutureWakeStatus_Pending,
        (scripted_world [])
          \<lparr>coroutines := [100 \<mapsto> counted_coroutine 2],
            heap_next := 101,
            trace := [Call_future_poll 20 100 FuturePollStatus_Pending]\<rparr>)"
    by (simp add: SuspendedCoroutine_wake_def RustAwaiter_wake_def RustFutureReceiver_wake_def
          add_ref_def prog_defs scripted_defs status_defs)
  show ?thesis
    using initial_suspend_one_wake [OF complete, of "counted_coroutine 2"]
          initial_suspend_one_wake [OF pending, of "counted_coroutine 2"]
    by (simp add: RustAwaiter_await_suspend_def new_SuspendedCoroutine_def prog_defs
          scripted_defs status_defs Let_def)
qed

subsection \<open>RustFutureReceiver::wake\<close>

lemma poll_statuses_append:
  "poll_statuses (xs @ ys) = poll_statuses xs @ poll_statuses ys"
  by (induction xs rule: poll_statuses.induct) simp_all

lemma release_no_poll:
  assumes "release coroutine w = (out, w')"
  shows "receivers w' = receivers w \<and> (\<exists>evs. trace w' = trace w @ evs \<and> poll_statuses evs = [])"
  using assms
  by (auto simp add: release_def delete_SuspendedCoroutine_def prog_defs Let_def
           split: option.splits if_splits)

lemma wake_not_pending:
  assumes "receivers w this = Some r" and "m_status r \<noteq> FuturePollStatus_Pending"
  shows "RustFutureReceiver_wake vtable this coroutine w =
           (case release coroutine w of
              (Inl e, w') \<Rightarrow> (Inl e, w')
            | (Inr u, w') \<Rightarrow> (Inr FutureWakeStatus_Dead, w'))"
  using assms
  by (simp add: RustFutureReceiver_wake_def prog_defs split: prod.splits sum.splits)

lemma wake_pending:
  assumes "receivers w this = Some r" and "m_status r = FuturePollStatus_Pending"
      and "future_poll vtable (m_future r) (m_result r) coroutine (rust w) = ((status, result), rs)"
  shows "RustFutureReceiver_wake vtable this coroutine w =
           (Inr status,
            w\<lparr>receivers := (receivers w)(this \<mapsto> r\<lparr>m_result := result, m_status := status\<rparr>),
              rust := rs,
              trace := trace w @ [Call_future_poll (m_future r) coroutine status]\<rparr>)"
  using assms by (simp add: RustFutureReceiver_wake_def)

lemma wake_calls_not_pending:
  assumes "receivers w this = Some r" and "m_status r \<noteq> FuturePollStatus_Pending"
      and "wake_calls vtable this cs w = (statuses, w')"
  shows "receivers w' this = Some r
       \<and> (\<forall>s \<in> set statuses. s = FutureWakeStatus_Dead)
       \<and> (\<exists>evs. trace w' = trace w @ evs \<and> poll_statuses evs = [])"
  using assms
proof (induction cs arbitrary: w statuses w')
  case Nil
  then show ?case by simp
next
  case (Cons c cs)
  obtain out w1 where rel: "release c w = (out, w1)"
    by (cases "release c w")
  from release_no_poll [OF rel] obtain evs1
    where w1: "receivers w1 = receivers w" "trace w1 = trace w @ evs1" "poll_statuses evs1 = []"
    by blast
  have wake: "RustFutureReceiver_wake vtable this c w =
                (case out of Inl e \<Rightarrow> (Inl e, w1) | Inr u \<Rightarrow> (Inr FutureWakeStatus_Dead, w1))"
    using wake_not_pending [OF Cons.prems(1,2)] rel by (simp split: sum.splits)
  show ?case
  proof (cases out)
    case (Inl e)
    with wake Cons.prems(3) have "statuses = []" "w' = w1" by auto
    with w1 Cons.prems(1) show ?thesis by auto
  next
    case (Inr u)
    obtain sts w2 where rest: "wake_calls vtable this cs w1 = (sts, w2)"
      by (cases "wake_calls vtable this cs w1")
    from Inr wake rest Cons.prems(3)
    have res: "statuses = FutureWakeStatus_Dead # sts" "w' = w2" by auto
    have r1: "receivers w1 this = Some r"
      using w1 Cons.prems(1) by simp
    from Cons.IH [OF r1 Cons.prems(2) rest] obtain evs2
      where w2: "receivers w2 this = Some r" "\<forall>s \<in> set sts. s = FutureWakeStatus_Dead"
                "trace w2 = trace w1 @ evs2" "poll_statuses evs2 = []"
      by blast
    have "trace w2 = trace w @ (evs1 @ evs2)" "poll_statuses (evs1 @ evs2) = []"
      using w1 w2 by (simp_all add: poll_statuses_append)
    with res w2 show ?thesis by auto
  qed
qed

lemma wake_calls_history:
  assumes "receivers w this = Some r"
      and "wake_calls vtable this cs w = (statuses, w')"
  shows "\<exists>evs r'. trace w' = trace w @ evs \<and> receivers w' this = Some r'
           \<and> m_status r' = last (m_status r # poll_statuses evs)
           \<and> (\<forall>s \<in> set (butlast (m_status r # poll_statuses evs)). s = FuturePollStatus_Pending)
           \<and> (\<forall>pre s post. statuses = pre @ s # post \<and> s \<noteq> FutureWakeStatus_Pending
                  \<longrightarrow> (\<forall>s' \<in> set post. s' = FutureWakeStatus_Dead))"
  using assms
proof (induction cs arbitrary: w r statuses w')
  case Nil
  then show ?case by simp
next
  case (Cons c cs)
  show ?case
  proof (cases "m_status r = FuturePollStatus_Pending")
    case False
    from wake_calls_not_pending [OF Cons.prems(1) False Cons.prems(2)] obtain evs
      where *: "receivers w' this = Some r" "\<forall>s \<in> set statuses. s = FutureWakeStatus_Dead"
               "trace w' = trace w @ evs" "poll_statuses evs = []"
      by blast
    have "\<forall>pre s post. statuses = pre @ s # post \<and> s \<noteq> FutureWakeStatus_Pending
             \<longrightarrow> (\<forall>s' \<in> set post. s' = FutureWakeStatus_Dead)"
      using *(2) by auto
    with * show ?thesis by auto
  next
    case True
    obtain status result rs
      where poll: "future_poll vtable (m_future r) (m_result r) c (rust w) = ((status, result), rs)"
      by (metis surj_pair)
    define r1 where "r1 = r\<lparr>m_result := result, m_status := status\<rparr>"
    define w1 where "w1 = w\<lparr>receivers := (receivers w)(this \<mapsto> r1), rust := rs,
                            trace := trace w @ [Call_future_poll (m_future r) c status]\<rparr>"
    have wake: "RustFutureReceiver_wake vtable this c w = (Inr status, w1)"
      using wake_pending [OF Cons.prems(1) True poll] by (simp add: w1_def r1_def)
    obtain sts w2 where rest: "wake_calls vtable this cs w1 = (sts, w2)"
      by (cases "wake_calls vtable this cs w1")
    from wake rest Cons.prems(2) have res: "statuses = status # sts" "w' = w2" by auto
    have r1: "receivers w1 this = Some r1" "m_status r1 = status"
      by (simp_all add: w1_def r1_def)
    from Cons.IH [OF r1(1) rest] obtain evs r'
      where ih: "trace w2 = trace w1 @ evs" "receivers w2 this = Some r'"
                "m_status r' = last (status # poll_statuses evs)"
                "\<forall>s \<in> set (butlast (status # poll_statuses evs)). s = FuturePollStatus_Pending"
                "\<forall>pre s post. sts = pre @ s # post \<and> s \<noteq> FutureWakeStatus_Pending
                    \<longrightarrow> (\<forall>s' \<in> set post. s' = FutureWakeStatus_Dead)"
      using r1(2) by blast
    let ?evs = "Call_future_poll (m_future r) c status # evs"
    have tr: "trace w' = trace w @ ?evs"
      using ih(1) res by (simp add: w1_def)
    have ps: "poll_statuses ?evs = status # poll_statuses evs" by simp
    have dead: "\<forall>s' \<in> set sts. s' = FutureWakeStatus_Dead"
      if "status \<noteq> FutureWakeStatus_Pending"
    proof -
      have "m_status r1 \<noteq> FuturePollStatus_Pending"
        using that r1(2) by (simp add: status_defs)
      from wake_calls_not_pending [OF r1(1) this rest] show ?thesis by blast
    qed
    have post: "\<forall>s' \<in> set post. s' = FutureWakeStatus_Dead"
      if "statuses = pre @ s # post" "s \<noteq> FutureWakeStatus_Pending" for pre s post
    proof (cases pre)
      case Nil
      with that res show ?thesis using dead by auto
    next
      case (Cons p pre')
      with that res have "sts = pre' @ s # post" by simp
      with ih(5) that(2) show ?thesis by blast
    qed
    show ?thesis
      using tr ih(2,3,4) True post res(2) unfolding ps
      by (intro exI [of _ ?evs] exI [of _ r']) auto
  qed
qed

text \<open>
  Claim C1. Take any receiver and any sequence of \<open>wake\<close> calls on it. The values its status
  field takes, the initial one followed by the status each \<open>future_poll\<close> returned, are
  \<open>Pending\<close> everywhere except possibly at the end: at most one poll returns something other
  than \<open>Pending\<close>, the status field leaves \<open>Pending\<close> at most once, and no poll follows. Of the
  statuses the calls return, everyone after a status other than \<open>Pending\<close> is \<open>Dead\<close>. And a
  single \<open>wake\<close> on a receiver whose status is not \<open>Pending\<close> does exactly what releasing the
  coroutine reference it was handed does, and then returns \<open>Dead\<close>.
\<close>

theorem receiver_terminal_once:
  assumes "receivers w this = Some r"
  shows "(m_status r \<noteq> FuturePollStatus_Pending \<longrightarrow>
            RustFutureReceiver_wake vtable this coroutine w =
              (case release coroutine w of
                 (Inl e, w') \<Rightarrow> (Inl e, w')
               | (Inr u, w') \<Rightarrow> (Inr FutureWakeStatus_Dead, w')))
       \<and> (\<exists>evs r'.
            trace (snd (wake_calls vtable this cs w)) = trace w @ evs
            \<and> receivers (snd (wake_calls vtable this cs w)) this = Some r'
            \<and> m_status r' = last (m_status r # poll_statuses evs)
            \<and> (\<forall>s \<in> set (butlast (m_status r # poll_statuses evs)).
                  s = FuturePollStatus_Pending)
            \<and> (\<forall>pre s post.
                  fst (wake_calls vtable this cs w) = pre @ s # post
                  \<and> s \<noteq> FutureWakeStatus_Pending
                  \<longrightarrow> (\<forall>s' \<in> set post. s' = FutureWakeStatus_Dead)))"
proof
  show "m_status r \<noteq> FuturePollStatus_Pending \<longrightarrow>
          RustFutureReceiver_wake vtable this coroutine w =
            (case release coroutine w of
               (Inl e, w') \<Rightarrow> (Inl e, w')
             | (Inr u, w') \<Rightarrow> (Inr FutureWakeStatus_Dead, w'))"
    using wake_not_pending [OF assms] by blast
next
  obtain statuses w' where run: "wake_calls vtable this cs w = (statuses, w')"
    by (cases "wake_calls vtable this cs w")
  from wake_calls_history [OF assms run] show "\<exists>evs r'.
      trace (snd (wake_calls vtable this cs w)) = trace w @ evs
      \<and> receivers (snd (wake_calls vtable this cs w)) this = Some r'
      \<and> m_status r' = last (m_status r # poll_statuses evs)
      \<and> (\<forall>s \<in> set (butlast (m_status r # poll_statuses evs)).
            s = FuturePollStatus_Pending)
      \<and> (\<forall>pre s post.
            fst (wake_calls vtable this cs w) = pre @ s # post
            \<and> s \<noteq> FutureWakeStatus_Pending
            \<longrightarrow> (\<forall>s' \<in> set post. s' = FutureWakeStatus_Dead))"
    unfolding run by simp
qed

text \<open>
  Four wakes of the receiver at 10 by a producer that answers \<open>Pending\<close> and then
  \<open>Complete\<close>: two polls, the second one terminal, then two \<open>Dead\<close> returns that each give
  their reference back. And one more wake of the completed receiver.
\<close>

theorem receiver_terminal_once_witness:
  "wake_calls scripted_vtable 10 [100, 100, 100, 100]
     ((scripted_world [FuturePollStatus_Pending, FuturePollStatus_Complete])
        \<lparr>coroutines := [100 \<mapsto> counted_coroutine 5]\<rparr>)
     = ([FutureWakeStatus_Pending, FutureWakeStatus_Complete,
         FutureWakeStatus_Dead, FutureWakeStatus_Dead],
        (scripted_world [])
          \<lparr>coroutines := [100 \<mapsto> counted_coroutine 3],
            receivers := [10 \<mapsto> \<lparr>m_future = 20, m_result = In_m_result 42,
                                  m_status = FuturePollStatus_Complete\<rparr>],
            trace := [Call_future_poll 20 100 FuturePollStatus_Pending,
                      Call_future_poll 20 100 FuturePollStatus_Complete]\<rparr>)
   \<and> RustFutureReceiver_wake scripted_vtable 10 100
       ((scripted_world [FuturePollStatus_Complete])
          \<lparr>coroutines := [100 \<mapsto> counted_coroutine 3],
            receivers := [10 \<mapsto> \<lparr>m_future = 20, m_result = In_m_result 42,
                                  m_status = FuturePollStatus_Complete\<rparr>]\<rparr>)
     = (Inr FutureWakeStatus_Dead,
        (scripted_world [FuturePollStatus_Complete])
          \<lparr>coroutines := [100 \<mapsto> counted_coroutine 2],
            receivers := [10 \<mapsto> \<lparr>m_future = 20, m_result = In_m_result 42,
                                  m_status = FuturePollStatus_Complete\<rparr>]\<rparr>)"
  using receiver_terminal_once
          [of "(scripted_world [FuturePollStatus_Pending, FuturePollStatus_Complete])
                 \<lparr>coroutines := [100 \<mapsto> counted_coroutine 5]\<rparr>"
              10 "new_RustFutureReceiver 20" scripted_vtable 100 "[100, 100, 100, 100]"]
        receiver_terminal_once
          [of "(scripted_world [FuturePollStatus_Complete])
                 \<lparr>coroutines := [100 \<mapsto> counted_coroutine 3],
                   receivers := [10 \<mapsto> \<lparr>m_future = 20, m_result = In_m_result 42,
                                         m_status = FuturePollStatus_Complete\<rparr>]\<rparr>"
              10 "\<lparr>m_future = 20, m_result = In_m_result 42,
                    m_status = FuturePollStatus_Complete\<rparr>" scripted_vtable 100 "[]"]
  by (simp add: RustFutureReceiver_wake_def release_def prog_defs scripted_defs status_defs)

subsection \<open>Reference counting\<close>














subsection \<open>The continuation is consumed at most once\<close>

lemma continuation_events_append:
  "continuation_events (xs @ ys) = continuation_events xs @ continuation_events ys"
  by (induction xs rule: continuation_events.induct) simp_all

lemma attached_le_1: "attached w this \<le> 1"
  by (simp add: attached_def split: option.splits)

lemma spendsD:
  assumes "spends_continuation this f"
  shows "\<exists>evs. trace (snd (f w)) = trace w @ evs
           \<and> length (continuation_events evs) + attached (snd (f w)) this \<le> attached w this"
  using assms by (simp add: spends_continuation_def)

lemma spends_return: "spends_continuation this (prog_return a)"
  by (simp add: spends_continuation_def prog_defs)

lemma spends_fail: "spends_continuation this (prog_fail e)"
  by (simp add: spends_continuation_def prog_defs)

lemma spends_bind:
  assumes m: "spends_continuation this m"
      and f: "\<And>a. spends_continuation this (f a)"
  shows "spends_continuation this (prog_bind m f)"
  unfolding spends_continuation_def
proof
  fix w
  obtain out w1 where mw: "m w = (out, w1)" by (cases "m w")
  from m obtain evs1
    where e1: "trace w1 = trace w @ evs1"
              "length (continuation_events evs1) + attached w1 this \<le> attached w this"
    unfolding spends_continuation_def using mw by (metis snd_conv)
  show "\<exists>evs. trace (snd (prog_bind m f w)) = trace w @ evs
          \<and> length (continuation_events evs) + attached (snd (prog_bind m f w)) this
              \<le> attached w this"
  proof (cases out)
    case (Inl e)
    then have "prog_bind m f w = (Inl e, w1)" using mw by (simp add: prog_bind_def)
    with e1 show ?thesis by auto
  next
    case (Inr a)
    then have b: "prog_bind m f w = f a w1" using mw by (simp add: prog_bind_def)
    from f [of a] obtain evs2
      where e2: "trace (snd (f a w1)) = trace w1 @ evs2"
                "length (continuation_events evs2) + attached (snd (f a w1)) this
                   \<le> attached w1 this"
      unfolding spends_continuation_def by blast
    have "trace (snd (prog_bind m f w)) = trace w @ (evs1 @ evs2)"
      using b e1 e2 by simp
    moreover have "length (continuation_events (evs1 @ evs2))
                     + attached (snd (prog_bind m f w)) this \<le> attached w this"
      using b e1 e2 by (simp add: continuation_events_append)
    ultimately show ?thesis by blast
  qed
qed

lemma spends_add_ref: "spends_continuation this (add_ref this)"
  by (auto simp add: spends_continuation_def add_ref_def attached_def split: option.splits)

lemma spends_forget: "spends_continuation this (forget_coroutine_handle this)"
  by (auto simp add: spends_continuation_def forget_coroutine_handle_def attached_def
           split: option.splits)

lemma spends_release: "spends_continuation this (release this)"
  by (auto simp add: spends_continuation_def release_def delete_SuspendedCoroutine_def
        prog_defs attached_def Let_def split: option.splits)

lemma spends_resume:
  assumes "spends_continuation this next_resume"
  shows "spends_continuation this (resume next_resume this)"
  unfolding spends_continuation_def
proof
  fix w
  show "\<exists>evs. trace (snd (resume next_resume this w)) = trace w @ evs
          \<and> length (continuation_events evs) + attached (snd (resume next_resume this w)) this
              \<le> attached w this"
  proof (cases "coroutines w this")
    case None
    then show ?thesis by (simp add: resume_def)
  next
    case (Some c)
    show ?thesis
    proof (cases "m_next c")
      case None
      then show ?thesis using Some by (simp add: resume_def prog_defs)
    next
      case (Some k)
      let ?w1 = "w\<lparr>coroutines := (coroutines w)(this \<mapsto> c\<lparr>m_next := None\<rparr>),
                    trace := trace w @ [Continuation_resume k]\<rparr>"
      have eq: "resume next_resume this w = next_resume ?w1"
        using \<open>coroutines w this = Some c\<close> Some by (simp add: resume_def prog_defs)
      from spendsD [where w = ?w1, OF assms] obtain evs
        where evs: "trace (snd (next_resume ?w1)) = trace ?w1 @ evs"
                   "length (continuation_events evs) + attached (snd (next_resume ?w1)) this
                      \<le> attached ?w1 this"
        by blast
      have before: "attached w this = 1"
        using \<open>coroutines w this = Some c\<close> Some by (simp add: attached_def)
      have after: "attached ?w1 this = 0"
        by (simp add: attached_def)
      have "trace (snd (resume next_resume this w)) = trace w @ (Continuation_resume k # evs)"
        using evs(1) by (simp add: eq)
      moreover have "length (continuation_events (Continuation_resume k # evs))
                       + attached (snd (resume next_resume this w)) this \<le> attached w this"
        using evs(2) before after by (simp add: eq)
      ultimately show ?thesis by blast
    qed
  qed
qed

lemma spends_receiver_wake:
  "spends_continuation this (RustFutureReceiver_wake vtable receiver this)"
  unfolding spends_continuation_def
proof
  fix w
  show "\<exists>evs. trace (snd (RustFutureReceiver_wake vtable receiver this w)) = trace w @ evs
          \<and> length (continuation_events evs)
              + attached (snd (RustFutureReceiver_wake vtable receiver this w)) this
              \<le> attached w this"
  proof (cases "receivers w receiver")
    case None
    then show ?thesis by (simp add: RustFutureReceiver_wake_def)
  next
    case (Some r)
    show ?thesis
    proof (cases "m_status r = FuturePollStatus_Pending")
      case True
      then show ?thesis
        using Some
        by (auto simp add: RustFutureReceiver_wake_def attached_def split: prod.splits)
    next
      case False
      have "spends_continuation this
              (prog_bind (release this) (\<lambda>_. prog_return FutureWakeStatus_Dead))"
        by (intro spends_bind spends_release spends_return)
      from spendsD [where w = w, OF this] show ?thesis
        using Some False by (simp add: RustFutureReceiver_wake_def)
    qed
  qed
qed

lemma add_ref_then:
  "prog_bind (add_ref this) g w =
     (case coroutines w this of
        None \<Rightarrow> (Inl UndefinedBehaviour, w)
      | Some c \<Rightarrow>
          g this (w\<lparr>coroutines := (coroutines w)(this \<mapsto> c\<lparr>m_refcount := m_refcount c + 1\<rparr>)\<rparr>))"
  by (simp add: add_ref_def prog_bind_def split: option.splits)

lemma spends_awaiter_wake:
  "spends_continuation this (RustAwaiter_wake vtable weak_receiver this)"
  unfolding spends_continuation_def
proof
  fix w
  show "\<exists>evs. trace (snd (RustAwaiter_wake vtable weak_receiver this w)) = trace w @ evs
          \<and> length (continuation_events evs)
              + attached (snd (RustAwaiter_wake vtable weak_receiver this w)) this
              \<le> attached w this"
  proof (cases "receivers w weak_receiver = None \<or> coroutines w this = None")
    case True
    then show ?thesis
      by (auto simp add: RustAwaiter_wake_def add_ref_then split: option.splits)
  next
    case False
    then obtain r c where live: "receivers w weak_receiver = Some r" "coroutines w this = Some c"
      by auto
    let ?w1 = "w\<lparr>coroutines := (coroutines w)(this \<mapsto> c\<lparr>m_refcount := m_refcount c + 1\<rparr>)\<rparr>"
    have eq: "RustAwaiter_wake vtable weak_receiver this w =
                RustFutureReceiver_wake vtable weak_receiver this ?w1"
      using live by (simp add: RustAwaiter_wake_def add_ref_then)
    have same: "trace ?w1 = trace w" "attached ?w1 this = attached w this"
      using live by (simp_all add: attached_def)
    from spendsD [where w = ?w1, OF spends_receiver_wake [of this vtable weak_receiver]]
    show ?thesis unfolding eq same .
  qed
qed

lemma spends_poll_next:
  "spends_continuation this (poll_next vtable moved_from awaiter this)"
  unfolding spends_continuation_def
proof
  fix w
  show "\<exists>evs. trace (snd (poll_next vtable moved_from awaiter this w)) = trace w @ evs
          \<and> length (continuation_events evs)
              + attached (snd (poll_next vtable moved_from awaiter this w)) this
              \<le> attached w this"
  proof (cases "stream_awaiters w awaiter = None \<or> coroutines w this = None")
    case True
    then show ?thesis
      by (auto simp add: poll_next_def add_ref_then Let_def attached_def split: option.splits)
  next
    case False
    then obtain a c where live: "stream_awaiters w awaiter = Some a" "coroutines w this = Some c"
      by auto
    obtain send_result rs
      where send: "sender_send vtable (m_sender a) FuturePollStatus_Running
                     (Result_ptr (In_m_result (m_value a))) (Some this) (rust w) = (send_result, rs)"
      by (cases "sender_send vtable (m_sender a) FuturePollStatus_Running
                   (Result_ptr (In_m_result (m_value a))) (Some this) (rust w)")
    show ?thesis
      using live send
      by (simp add: poll_next_def add_ref_then Let_def)
         (simp add: prog_defs attached_def)
  qed
qed

lemma spends_wake:
  "spends_continuation this (SuspendedCoroutine_wake vtable moved_from this)"
  unfolding spends_continuation_def
proof
  fix w
  show "\<exists>evs. trace (snd (SuspendedCoroutine_wake vtable moved_from this w)) = trace w @ evs
          \<and> length (continuation_events evs)
              + attached (snd (SuspendedCoroutine_wake vtable moved_from this w)) this
              \<le> attached w this"
  proof (cases "coroutines w this")
    case None
    then show ?thesis by (simp add: SuspendedCoroutine_wake_def)
  next
    case (Some c)
    show ?thesis
    proof (cases "m_wake_fn c")
      case (RustAwaiter_wake_fn weak_receiver)
      with Some spendsD [where w = w, OF spends_awaiter_wake [of this vtable weak_receiver]]
      show ?thesis by (simp add: SuspendedCoroutine_wake_def)
    next
      case (RustStreamAwaiter_wake_fn awaiter)
      with Some spendsD [where w = w, OF spends_poll_next [of this vtable moved_from awaiter]]
      show ?thesis by (simp add: SuspendedCoroutine_wake_def)
    qed
  qed
qed

lemma spends_initial_suspend:
  "spends_continuation this (initial_suspend vtable moved_from this)"
  unfolding initial_suspend_def Let_def
  by (intro spends_bind spends_wake spends_release spends_return)
     (simp add: spends_forget spends_return)

lemma spends_calls:
  "spends_continuation this (perform_call vtable moved_from this call)"
  "spends_continuation this (run_calls vtable moved_from this calls)"
  by (induction vtable moved_from this call and vtable moved_from this calls
        rule: perform_call_run_calls.induct)
     (simp_all add: spends_bind spends_add_ref spends_release spends_wake
        spends_initial_suspend spends_resume spends_return)

text \<open>
  Claim C6. The continuation attached to a \<open>SuspendedCoroutine\<close> is consumed at most once.
  \<open>resume\<close> on a coroutine that holds a continuation nulls \<open>m_next\<close> before it invokes the
  continuation: whatever the continuation does, it does in a store where the coroutine
  holds no continuation any more, so that a \<open>release\<close> arriving from inside it, even the
  last one, finds nothing to destroy. On a coroutine that holds none the assertion of
  \<open>resume\<close> fails. And over every sequence of calls of the public member functions
  (\<open>add_ref\<close>, \<open>release\<close> and with it the destructor, \<open>wake\<close>, \<open>initial_suspend\<close>, \<open>resume\<close>),
  calls arriving while a \<open>resume\<close> is running included, all that happens to the trace is
  that events are appended, at most one of them a \<open>resume\<close> or \<open>destroy\<close> of a continuation,
  and only if the coroutine held a continuation before and holds none afterwards.
\<close>

theorem continuation_consumed_at_most_once:
  "(coroutines w this = Some c \<and> m_next c = Some k \<longrightarrow>
      resume next_resume this w =
        next_resume
          (w\<lparr>coroutines := (coroutines w)(this \<mapsto> c\<lparr>m_next := None\<rparr>),
             trace := trace w @ [Continuation_resume k]\<rparr>))
   \<and> (coroutines w this = Some c \<and> m_next c = None \<longrightarrow>
      resume next_resume this w = (Inl AssertionFailed, w))
   \<and> (\<exists>evs.
        trace (snd (run_calls vtable moved_from this calls w)) = trace w @ evs
        \<and> length (continuation_events evs)
            + attached (snd (run_calls vtable moved_from this calls w)) this
            \<le> attached w this
        \<and> length (continuation_events evs) \<le> 1)"
proof -
  from spendsD [where w = w, OF spends_calls(2) [of this vtable moved_from calls]] obtain evs
    where evs: "trace (snd (run_calls vtable moved_from this calls w)) = trace w @ evs"
      "length (continuation_events evs)
         + attached (snd (run_calls vtable moved_from this calls w)) this \<le> attached w this"
    by blast
  have "length (continuation_events evs) \<le> 1"
    using evs(2) attached_le_1 [of w this] by simp
  with evs show ?thesis
    by (auto simp add: resume_def prog_defs)
qed

text \<open>
  A coroutine with a continuation. With one reference, resumed by a continuation that
  gives that reference back while it runs: the continuation is resumed, the coroutine is
  deleted from inside \<open>resume\<close>, and the destructor destroys nothing. With two references,
  resumed by a continuation that resumes the coroutine again: the inner call fails its
  assertion. With two references, resumed and then released twice: resumed once, nothing
  destroyed.
\<close>

theorem continuation_consumed_at_most_once_witness:
  "run_calls scripted_vtable (\<lambda>v. v) 100 [Call_resume [Call_release]]
     ((scripted_world [])\<lparr>coroutines := [100 \<mapsto> counted_coroutine 1]\<rparr>)
     = (Inr (),
        (scripted_world [])
          \<lparr>trace := [Continuation_resume (CoroutineHandleContinuation 60),
                      Delete_SuspendedCoroutine 100]\<rparr>)
   \<and> run_calls scripted_vtable (\<lambda>v. v) 100 [Call_resume [Call_resume []]]
       ((scripted_world [])\<lparr>coroutines := [100 \<mapsto> counted_coroutine 2]\<rparr>)
     = (Inl AssertionFailed,
        (scripted_world [])
          \<lparr>coroutines := [100 \<mapsto> (counted_coroutine 2)\<lparr>m_next := None\<rparr>],
            trace := [Continuation_resume (CoroutineHandleContinuation 60)]\<rparr>)
   \<and> run_calls scripted_vtable (\<lambda>v. v) 100 [Call_resume [], Call_release, Call_release]
       ((scripted_world [])\<lparr>coroutines := [100 \<mapsto> counted_coroutine 2]\<rparr>)
     = (Inr (),
        (scripted_world [])
          \<lparr>trace := [Continuation_resume (CoroutineHandleContinuation 60),
                      Delete_SuspendedCoroutine 100]\<rparr>)
   \<and> attached ((scripted_world [])\<lparr>coroutines := [100 \<mapsto> counted_coroutine 1]\<rparr>) 100 = 1"
  using continuation_consumed_at_most_once
          [where w = "(scripted_world [])\<lparr>coroutines := [100 \<mapsto> counted_coroutine 1]\<rparr>"
             and this = 100 and c = "counted_coroutine 1"
             and k = "CoroutineHandleContinuation 60"
             and next_resume = "run_calls scripted_vtable (\<lambda>v. v) 100 [Call_release]"
             and vtable = scripted_vtable and moved_from = "\<lambda>v. v"
             and calls = "[Call_resume [Call_release]]"]
        continuation_consumed_at_most_once
          [where w = "(scripted_world [])
                        \<lparr>coroutines := [100 \<mapsto> (counted_coroutine 2)\<lparr>m_next := None\<rparr>],
                          trace := [Continuation_resume (CoroutineHandleContinuation 60)]\<rparr>"
             and this = 100 and c = "(counted_coroutine 2)\<lparr>m_next := None\<rparr>"
             and k = "CoroutineHandleContinuation 60"
             and next_resume = "run_calls scripted_vtable (\<lambda>v. v) 100 []"
             and vtable = scripted_vtable and moved_from = "\<lambda>v. v"
             and calls = "[Call_resume []]"]
  by (simp add: resume_def release_def delete_SuspendedCoroutine_def prog_defs attached_def
        scripted_defs)

end
